theory Spec2Isabelle
  imports Complex_Main
begin

section \<open>Tensors of rank two and the operations \<open>sinkhorn_loss\<close> applies to them\<close>

text \<open>
  The notebook's \<open>sinkhorn_loss\<close> works on dense matrices of the framework's
  default float type. It is embedded twice. The first embedding takes the numbers as
  \<^typ>\<open>real\<close>: it shows which computation the code performs (the formula it
  evaluates, the number of rounds, the shapes, the errors raised for shapes that do not
  fit). The second embedding, further down, takes the numbers as binary32 floats with
  rounding, overflow, underflow, infinities and not-a-number: it shows which values the
  entries can take.

  A tensor carries its static shape next to its rows, so that a matrix with no row
  still has a number of columns, as it has in the framework.
\<close>

datatype error = InvalidArgument
  \<comment> \<open>the framework's error for operands whose shapes do not fit\<close>

record tensor2 =
  shape0 :: nat
  shape1 :: nat
  rows :: "real list list"

definition well_shaped :: "tensor2 \<Rightarrow> bool" where
  "well_shaped T \<longleftrightarrow>
     length (rows T) = shape0 T \<and> list_all (\<lambda>r. length r = shape1 T) (rows T)"

definition entry :: "tensor2 \<Rightarrow> nat \<Rightarrow> nat \<Rightarrow> real" where
  "entry T i j = rows T ! i ! j"

definition tabulate2 :: "nat \<Rightarrow> nat \<Rightarrow> (nat \<Rightarrow> nat \<Rightarrow> real) \<Rightarrow> tensor2" where
  "tabulate2 p q f =
     \<lparr>shape0 = p, shape1 = q, rows = map (\<lambda>i. map (f i) [0..<q]) [0..<p]\<rparr>"

text \<open>\<open>tf.ones((p, q))\<close>\<close>

definition ones :: "nat \<Rightarrow> nat \<Rightarrow> tensor2" where
  "ones p q = tabulate2 p q (\<lambda>i j. 1)"

text \<open>\<open>tf.transpose\<close> of a matrix.\<close>

definition transpose_t :: "tensor2 \<Rightarrow> tensor2" where
  "transpose_t T = tabulate2 (shape1 T) (shape0 T) (\<lambda>i j. entry T j i)"

text \<open>
  \<open>tf.matmul(A, B)\<close>: the inner dimensions must agree, otherwise the framework
  raises. \<open>mm\<close> is the product itself.
\<close>

definition mm :: "tensor2 \<Rightarrow> tensor2 \<Rightarrow> tensor2" where
  "mm A B = tabulate2 (shape0 A) (shape1 B) (\<lambda>i j. \<Sum>k<shape1 A. entry A i k * entry B k j)"

definition matmul :: "tensor2 \<Rightarrow> tensor2 \<Rightarrow> error + tensor2" where
  "matmul A B = (if shape1 A = shape0 B then Inr (mm A B) else Inl InvalidArgument)"

text \<open>
  \<open>tf.mul(K, c)\<close>, the entrywise product. Its two operands in \<open>sinkhorn_loss\<close>
  have the same shape by construction (\<open>K\<close> is computed entrywise from \<open>c\<close>), so
  broadcasting never applies.
\<close>

definition mul :: "tensor2 \<Rightarrow> tensor2 \<Rightarrow> tensor2" where
  "mul A B = tabulate2 (shape0 A) (shape1 A) (\<lambda>i j. entry A i j * entry B i j)"

text \<open>A scalar function applied to every entry (\<open>tf.exp\<close>, arithmetic with a scalar).\<close>

definition tensor_map :: "(real \<Rightarrow> real) \<Rightarrow> tensor2 \<Rightarrow> tensor2" where
  "tensor_map f T = tabulate2 (shape0 T) (shape1 T) (\<lambda>i j. f (entry T i j))"

section \<open>\<open>sinkhorn_loss\<close>\<close>

text \<open>
  \<^verbatim>\<open>
  def sinkhorn_loss(X, Y, epsilon=.5, L=10):
      X_new = tf.expand_dims(X, 1)
      Y_new = tf.expand_dims(Y, 0)
      diff = X_new - Y_new
      c = tf.reduce_sum(diff**2, reduction_indices=-1)
      K = tf.exp(-c/epsilon)
      a = tf.ones((tf.shape(Y)[0], 1))
      b = tf.ones((tf.shape(Y)[0], 1))
      for l in range(L):
          a = 1./(tf.matmul(K, b) + 1e-12)
          b = 1./(tf.matmul(tf.transpose(K), a) + 1e-12)
      return tf.matmul(tf.transpose(tf.matmul(tf.mul(K, c), b)), a)
  \<close>
\<close>

text \<open>
  The subtraction \<open>X_new - Y_new\<close> of an \<open>m \<times> 1 \<times> dX\<close> and a \<open>1 \<times> n \<times> dY\<close> tensor
  broadcasts: the first two axes always fit, the last one fits when the two sizes are
  equal or one of them is 1, and the framework raises otherwise.
\<close>

definition broadcast_dim :: "nat \<Rightarrow> nat \<Rightarrow> error + nat" where
  "broadcast_dim p q =
     (if p = q then Inr p
      else if p = 1 then Inr q
      else if q = 1 then Inr p
      else Inl InvalidArgument)"

definition bidx :: "nat \<Rightarrow> nat \<Rightarrow> nat" where
  "bidx s k = (if s = 1 then 0 else k)"

text \<open>The first four lines: \<open>c[i][j] = sum_k (X[i][k] - Y[j][k])**2\<close>.\<close>

definition sq_dists :: "tensor2 \<Rightarrow> tensor2 \<Rightarrow> error + tensor2" where
  "sq_dists X Y =
     (case broadcast_dim (shape1 X) (shape1 Y) of
        Inl e \<Rightarrow> Inl e
      | Inr d \<Rightarrow> Inr (tabulate2 (shape0 X) (shape0 Y)
          (\<lambda>i j. \<Sum>k<d. (entry X i (bidx (shape1 X) k) - entry Y j (bidx (shape1 Y) k))\<^sup>2)))"

text \<open>
  \<open>K = tf.exp(-c/epsilon)\<close>. For \<open>epsilon = 0\<close> the floating-point quotient is
  infinite or undefined, which a real number does not show: the results below that
  depend on the entries of \<open>K\<close> are stated for \<open>epsilon > 0\<close>.
\<close>

definition kernel_K :: "tensor2 \<Rightarrow> real \<Rightarrow> tensor2" where
  "kernel_K c epsilon = tensor_map (\<lambda>x. exp (- x / epsilon)) c"

text \<open>The two \<open>tf.ones\<close> lines: both \<open>a\<close> and \<open>b\<close> take their size from \<open>Y\<close>.\<close>

definition init_scalings :: "tensor2 \<Rightarrow> tensor2 \<times> tensor2" where
  "init_scalings Y = (ones (shape0 Y) 1, ones (shape0 Y) 1)"

text \<open>
  \<open>1./(T + 1e-12)\<close>. The denominators the loop meets are positive
  (\<open>positive_recip_mm\<close> below), so no division by zero hides in the real quotient.
\<close>

definition recip_floor :: "tensor2 \<Rightarrow> tensor2" where
  "recip_floor T = tensor_map (\<lambda>x. 1 / (x + 1 / 10 ^ 12)) T"

text \<open>\<open>range(L)\<close>: empty when \<open>L \<le> 0\<close>.\<close>

definition py_range :: "int \<Rightarrow> int list" where
  "py_range L = map int [0..<nat L]"

text \<open>The \<open>for\<close> loop, one equation per remaining element of the range.\<close>

fun sinkhorn_loop :: "int list \<Rightarrow> tensor2 \<Rightarrow> tensor2 \<times> tensor2 \<Rightarrow> error + tensor2 \<times> tensor2" where
  "sinkhorn_loop [] K (a, b) = Inr (a, b)"
| "sinkhorn_loop (l # ls) K (a, b) =
     (case matmul K b of
        Inl e \<Rightarrow> Inl e
      | Inr Kb \<Rightarrow>
          (let a' = recip_floor Kb in
           case matmul (transpose_t K) a' of
             Inl e \<Rightarrow> Inl e
           | Inr Ka \<Rightarrow> sinkhorn_loop ls K (a', recip_floor Ka)))"

text \<open>The \<open>return\<close> line.\<close>

definition contraction :: "tensor2 \<Rightarrow> tensor2 \<Rightarrow> tensor2 \<times> tensor2 \<Rightarrow> error + tensor2" where
  "contraction K c s =
     (case s of (a, b) \<Rightarrow>
        (case matmul (mul K c) b of
           Inl e \<Rightarrow> Inl e
         | Inr KcB \<Rightarrow> matmul (transpose_t KcB) a))"

text \<open>
  The loop and the return line, from given starting values of \<open>a\<close> and \<open>b\<close>;
  \<open>sinkhorn_loss\<close> runs it from \<open>init_scalings\<close>.
\<close>

definition sinkhorn_from :: "tensor2 \<Rightarrow> tensor2 \<Rightarrow> int \<Rightarrow> tensor2 \<times> tensor2 \<Rightarrow> error + tensor2" where
  "sinkhorn_from K c L s0 =
     (case sinkhorn_loop (py_range L) K s0 of
        Inl e \<Rightarrow> Inl e
      | Inr s \<Rightarrow> contraction K c s)"

definition sinkhorn_loss :: "tensor2 \<Rightarrow> tensor2 \<Rightarrow> real \<Rightarrow> int \<Rightarrow> error + tensor2" where
  "sinkhorn_loss X Y epsilon L =
     (case sq_dists X Y of
        Inl e \<Rightarrow> Inl e
      | Inr c \<Rightarrow> sinkhorn_from (kernel_K c epsilon) c L (init_scalings Y))"

text \<open>
  The call sites pass the two point sets only, so \<open>epsilon\<close> and \<open>L\<close> take the
  defaults of the \<open>def\<close> line.
\<close>

definition sinkhorn_loss_default :: "tensor2 \<Rightarrow> tensor2 \<Rightarrow> error + tensor2" where
  "sinkhorn_loss_default X Y = sinkhorn_loss X Y (5 / 10) 10"

text \<open>
  \<^verbatim>\<open>
  loss = tf.reduce_sum(2.*sinkhorn_loss(X, generator_out) - sinkhorn_loss(X, X)
                       - sinkhorn_loss(generator_out, generator_out))
  \<close>
  The three operands are the \<open>1 \<times> 1\<close> results of \<open>sinkhorn_loss\<close>, so the entrywise
  subtraction meets equal shapes only.
\<close>

definition scale :: "real \<Rightarrow> tensor2 \<Rightarrow> tensor2" where
  "scale s T = tensor_map (\<lambda>x. s * x) T"

definition sub_t :: "tensor2 \<Rightarrow> tensor2 \<Rightarrow> tensor2" where
  "sub_t A B = tabulate2 (shape0 A) (shape1 A) (\<lambda>i j. entry A i j - entry B i j)"

definition reduce_sum :: "tensor2 \<Rightarrow> real" where
  "reduce_sum T = (\<Sum>i<shape0 T. \<Sum>j<shape1 T. entry T i j)"

definition loss :: "tensor2 \<Rightarrow> tensor2 \<Rightarrow> error + real" where
  "loss X G =
     (case sinkhorn_loss_default X G of
        Inl e \<Rightarrow> Inl e
      | Inr s1 \<Rightarrow>
          (case sinkhorn_loss_default X X of
             Inl e \<Rightarrow> Inl e
           | Inr s2 \<Rightarrow>
               (case sinkhorn_loss_default G G of
                  Inl e \<Rightarrow> Inl e
                | Inr s3 \<Rightarrow> Inr (reduce_sum (sub_t (sub_t (scale 2 s1) s2) s3)))))"

section \<open>Auxiliary notions\<close>

text \<open>
  One pass through the loop body as a function on the pair \<open>(a, b)\<close>, without the
  shape checks of \<open>matmul\<close>.
\<close>

definition sinkhorn_round :: "tensor2 \<Rightarrow> tensor2 \<times> tensor2 \<Rightarrow> tensor2 \<times> tensor2" where
  "sinkhorn_round K s =
     (let a' = recip_floor (mm K (snd s));
          b' = recip_floor (mm (transpose_t K) a')
      in (a', b'))"

definition positive :: "tensor2 \<Rightarrow> bool" where
  "positive T \<longleftrightarrow> (\<forall>i<shape0 T. \<forall>j<shape1 T. 0 < entry T i j)"

definition nonneg :: "tensor2 \<Rightarrow> bool" where
  "nonneg T \<longleftrightarrow> (\<forall>i<shape0 T. \<forall>j<shape1 T. 0 \<le> entry T i j)"

text \<open>A vector as the \<open>k \<times> 1\<close> tensor the code works with.\<close>

definition col :: "real list \<Rightarrow> tensor2" where
  "col xs = tabulate2 (length xs) 1 (\<lambda>i j. xs ! i)"

section \<open>The transport cost as the specification words it\<close>

text \<open>
  Steps 1 to 5 of the specification's algorithm, on index functions and vectors:
  \<open>C[i][j] = ||A[i] - B[j]||\<^sup>2\<close>, \<open>K[i][j] = exp(-C[i][j] / epsilon)\<close>, the scaling
  vectors start as all ones of lengths \<open>m\<close> and \<open>n\<close>, each round sets
  \<open>u[i] = 1 / (sum_j K[i][j] * v[j] + 1e-12)\<close> and then
  \<open>v[j] = 1 / (sum_i K[i][j] * u[i] + 1e-12)\<close>, and the result is
  \<open>sum_{i,j} K[i][j] * C[i][j] * v[j] * u[i]\<close>.
\<close>

definition spec_C :: "tensor2 \<Rightarrow> tensor2 \<Rightarrow> nat \<Rightarrow> nat \<Rightarrow> real" where
  "spec_C A B i j = (\<Sum>k<shape1 A. (entry A i k - entry B j k)\<^sup>2)"

definition spec_K :: "tensor2 \<Rightarrow> tensor2 \<Rightarrow> real \<Rightarrow> nat \<Rightarrow> nat \<Rightarrow> real" where
  "spec_K A B epsilon i j = exp (- spec_C A B i j / epsilon)"

definition spec_round ::
  "(nat \<Rightarrow> nat \<Rightarrow> real) \<Rightarrow> nat \<Rightarrow> nat \<Rightarrow> real list \<times> real list \<Rightarrow> real list \<times> real list" where
  "spec_round K m n uv =
     (let u' = map (\<lambda>i. 1 / ((\<Sum>j<n. K i j * snd uv ! j) + 1 / 10 ^ 12)) [0..<m];
          v' = map (\<lambda>j. 1 / ((\<Sum>i<m. K i j * u' ! i) + 1 / 10 ^ 12)) [0..<n]
      in (u', v'))"

definition spec_scalings ::
  "(nat \<Rightarrow> nat \<Rightarrow> real) \<Rightarrow> nat \<Rightarrow> nat \<Rightarrow> nat \<Rightarrow> real list \<times> real list" where
  "spec_scalings K m n L = (spec_round K m n ^^ L) (replicate m 1, replicate n 1)"

definition spec_transport_cost :: "tensor2 \<Rightarrow> tensor2 \<Rightarrow> real \<Rightarrow> nat \<Rightarrow> real" where
  "spec_transport_cost A B epsilon L =
     (let m = shape0 A; n = shape0 B;
          uv = spec_scalings (spec_K A B epsilon) m n L
      in \<Sum>i<m. \<Sum>j<n. spec_K A B epsilon i j * spec_C A B i j * snd uv ! j * fst uv ! i)"

section \<open>Sample inputs\<close>

text \<open>Two points and one point on the line, and two points in the plane.\<close>

definition two_points :: tensor2 where
  "two_points = \<lparr>shape0 = 2, shape1 = 1, rows = [[0], [1]]\<rparr>"

definition one_point :: tensor2 where
  "one_point = \<lparr>shape0 = 1, shape1 = 1, rows = [[0]]\<rparr>"

definition plane_points :: tensor2 where
  "plane_points = \<lparr>shape0 = 2, shape1 = 2, rows = [[0, 0], [3, 4]]\<rparr>"

section \<open>Floating-point numbers\<close>

text \<open>
  A value of the framework's default float type is a real number, one of the two
  infinities, or not a number. The sign of zero is not distinguished; it could only
  show in a division by zero, which the function does not meet when the float of
  \<open>epsilon\<close> is positive (the loop's denominators are positive, \<open>recip_fin_nn\<close> below).
\<close>

datatype f32 = Fin real | PInf | NInf | NaN

text \<open>
  Rounding to the nearest binary32 number, ties to even: the unit in the last place
  of \<open>x\<close> is \<open>2\<close> to the power \<open>e - 23\<close>, where \<open>e\<close> is the binary exponent of \<open>x\<close> and at
  least \<open>-126\<close> (below that the numbers are subnormal, with a fixed spacing). A
  magnitude of at least \<open>2^128 - 2^103\<close>, halfway between the largest finite number and
  \<open>2^128\<close>, rounds to an infinity.
\<close>

definition round_even :: "real \<Rightarrow> int" where
  "round_even y =
     (let f = \<lfloor>y\<rfloor> in
      if y - of_int f < 1 / 2 then f
      else if 1 / 2 < y - of_int f then f + 1
      else if even f then f else f + 1)"

definition expo :: "real \<Rightarrow> int" where
  "expo x = max \<lfloor>log 2 \<bar>x\<bar>\<rfloor> (- 126)"

definition ulp :: "real \<Rightarrow> real" where
  "ulp x = 2 powr (of_int (expo x) - 23)"

definition overflow_bound :: real where
  "overflow_bound = 2 ^ 128 - 2 ^ 103"

definition rnd :: "real \<Rightarrow> f32" where
  "rnd x =
     (if overflow_bound \<le> \<bar>x\<bar> then (if 0 < x then PInf else NInf)
      else Fin (ulp x * of_int (round_even (x / ulp x))))"

text \<open>
  The arithmetic of the operations \<open>sinkhorn_loss\<close> uses: each rounds the exact result
  once, and infinities and not-a-number propagate as in IEEE 754. \<open>fexp\<close> rounds the exact
  exponential; \<open>fsum\<close> adds from the left, starting at 0.
\<close>

fun fneg :: "f32 \<Rightarrow> f32" where
  "fneg (Fin x) = Fin (- x)"
| "fneg PInf = NInf"
| "fneg NInf = PInf"
| "fneg NaN = NaN"

fun fadd :: "f32 \<Rightarrow> f32 \<Rightarrow> f32" where
  "fadd (Fin x) (Fin y) = rnd (x + y)"
| "fadd NaN b = NaN"
| "fadd a NaN = NaN"
| "fadd PInf NInf = NaN"
| "fadd NInf PInf = NaN"
| "fadd PInf b = PInf"
| "fadd a PInf = PInf"
| "fadd NInf b = NInf"
| "fadd a NInf = NInf"


fun fmul :: "f32 \<Rightarrow> f32 \<Rightarrow> f32" where
  "fmul (Fin x) (Fin y) = rnd (x * y)"
| "fmul NaN b = NaN"
| "fmul a NaN = NaN"
| "fmul (Fin x) PInf = (if x = 0 then NaN else if 0 < x then PInf else NInf)"
| "fmul (Fin x) NInf = (if x = 0 then NaN else if 0 < x then NInf else PInf)"
| "fmul PInf (Fin y) = (if y = 0 then NaN else if 0 < y then PInf else NInf)"
| "fmul NInf (Fin y) = (if y = 0 then NaN else if 0 < y then NInf else PInf)"
| "fmul PInf PInf = PInf"
| "fmul PInf NInf = NInf"
| "fmul NInf PInf = NInf"
| "fmul NInf NInf = PInf"

fun fdiv :: "f32 \<Rightarrow> f32 \<Rightarrow> f32" where
  "fdiv (Fin x) (Fin y) =
     (if y = 0 then (if x = 0 then NaN else if 0 < x then PInf else NInf) else rnd (x / y))"
| "fdiv NaN b = NaN"
| "fdiv a NaN = NaN"
| "fdiv (Fin x) PInf = Fin 0"
| "fdiv (Fin x) NInf = Fin 0"
| "fdiv PInf (Fin y) = (if 0 \<le> y then PInf else NInf)"
| "fdiv NInf (Fin y) = (if 0 \<le> y then NInf else PInf)"
| "fdiv PInf b = NaN"
| "fdiv NInf b = NaN"

fun fexp :: "f32 \<Rightarrow> f32" where
  "fexp (Fin x) = rnd (exp x)"
| "fexp PInf = PInf"
| "fexp NInf = Fin 0"
| "fexp NaN = NaN"

definition fsum :: "f32 list \<Rightarrow> f32" where
  "fsum xs = foldl fadd (Fin 0) xs"

text \<open>Classes of values; \<open>fle\<close> is the comparison \<open>\<le>\<close> of the floats.\<close>

fun is_fin :: "f32 \<Rightarrow> bool" where
  "is_fin (Fin x) = True"
| "is_fin v = False"

fun is_pos :: "f32 \<Rightarrow> bool" where
  "is_pos (Fin x) = (0 < x)"
| "is_pos v = False"





section \<open>\<open>sinkhorn_loss\<close> in floating-point arithmetic\<close>

text \<open>
  The same operations and the same function on tensors of floats. \<open>diff**2\<close> is the
  product of \<open>diff\<close> with itself; the Python numbers \<open>epsilon\<close> and \<open>1e-12\<close> are rounded to
  floats where they meet a tensor, and \<open>1.\<close> is a float as it stands.
\<close>

record ftensor2 =
  fshape0 :: nat
  fshape1 :: nat
  frows :: "f32 list list"

definition well_shaped_f :: "ftensor2 \<Rightarrow> bool" where
  "well_shaped_f T \<longleftrightarrow>
     length (frows T) = fshape0 T \<and> list_all (\<lambda>r. length r = fshape1 T) (frows T)"

definition entry_f :: "ftensor2 \<Rightarrow> nat \<Rightarrow> nat \<Rightarrow> f32" where
  "entry_f T i j = frows T ! i ! j"

definition tabulate2_f :: "nat \<Rightarrow> nat \<Rightarrow> (nat \<Rightarrow> nat \<Rightarrow> f32) \<Rightarrow> ftensor2" where
  "tabulate2_f p q f =
     \<lparr>fshape0 = p, fshape1 = q, frows = map (\<lambda>i. map (f i) [0..<q]) [0..<p]\<rparr>"

definition ones_f :: "nat \<Rightarrow> nat \<Rightarrow> ftensor2" where
  "ones_f p q = tabulate2_f p q (\<lambda>i j. Fin 1)"

definition transpose_f :: "ftensor2 \<Rightarrow> ftensor2" where
  "transpose_f T = tabulate2_f (fshape1 T) (fshape0 T) (\<lambda>i j. entry_f T j i)"

definition mm_f :: "ftensor2 \<Rightarrow> ftensor2 \<Rightarrow> ftensor2" where
  "mm_f A B = tabulate2_f (fshape0 A) (fshape1 B)
     (\<lambda>i j. fsum (map (\<lambda>k. fmul (entry_f A i k) (entry_f B k j)) [0..<fshape1 A]))"


definition mul_f :: "ftensor2 \<Rightarrow> ftensor2 \<Rightarrow> ftensor2" where
  "mul_f A B = tabulate2_f (fshape0 A) (fshape1 A) (\<lambda>i j. fmul (entry_f A i j) (entry_f B i j))"

definition tensor_map_f :: "(f32 \<Rightarrow> f32) \<Rightarrow> ftensor2 \<Rightarrow> ftensor2" where
  "tensor_map_f g T = tabulate2_f (fshape0 T) (fshape1 T) (\<lambda>i j. g (entry_f T i j))"



definition kernel_K_f :: "ftensor2 \<Rightarrow> real \<Rightarrow> ftensor2" where
  "kernel_K_f c epsilon = tensor_map_f (\<lambda>x. fexp (fdiv (fneg x) (rnd epsilon))) c"


definition recip_floor_f :: "ftensor2 \<Rightarrow> ftensor2" where
  "recip_floor_f T = tensor_map_f (\<lambda>x. fdiv (Fin 1) (fadd x (rnd (1 / 10 ^ 12)))) T"




text \<open>One pass through the loop body, and a property of all entries of a tensor.\<close>

definition sinkhorn_round_f :: "ftensor2 \<Rightarrow> ftensor2 \<times> ftensor2 \<Rightarrow> ftensor2 \<times> ftensor2" where
  "sinkhorn_round_f K s =
     (let a' = recip_floor_f (mm_f K (snd s));
          b' = recip_floor_f (mm_f (transpose_f K) a')
      in (a', b'))"

definition all_entries :: "(f32 \<Rightarrow> bool) \<Rightarrow> ftensor2 \<Rightarrow> bool" where
  "all_entries P T \<longleftrightarrow> (\<forall>i<fshape0 T. \<forall>j<fshape1 T. P (entry_f T i j))"

text \<open>
  Sample inputs: the two point sets above, the specification's second scenario (the
  origin and the point \<open>(10, 0)\<close> of the plane), and a point at \<open>2^70\<close> on the line.
\<close>

definition two_points_f :: ftensor2 where
  "two_points_f = \<lparr>fshape0 = 2, fshape1 = 1, frows = [[Fin 0], [Fin 1]]\<rparr>"

definition one_point_f :: ftensor2 where
  "one_point_f = \<lparr>fshape0 = 1, fshape1 = 1, frows = [[Fin 0]]\<rparr>"

definition origin_f :: ftensor2 where
  "origin_f = \<lparr>fshape0 = 1, fshape1 = 2, frows = [[Fin 0, Fin 0]]\<rparr>"

definition ten_f :: ftensor2 where
  "ten_f = \<lparr>fshape0 = 1, fshape1 = 2, frows = [[Fin 10, Fin 0]]\<rparr>"

definition far_point_f :: ftensor2 where
  "far_point_f = \<lparr>fshape0 = 1, fshape1 = 1, frows = [[Fin (2 ^ 70)]]\<rparr>"

section \<open>Shapes and entries of the tensor operations\<close>

lemma shape_tabulate2 [simp]:
  "shape0 (tabulate2 p q f) = p" "shape1 (tabulate2 p q f) = q"
  by (simp_all add: tabulate2_def)

lemma entry_tabulate2 [simp]: "i < p \<Longrightarrow> j < q \<Longrightarrow> entry (tabulate2 p q f) i j = f i j"
  by (simp add: tabulate2_def entry_def)

lemma tabulate2_cong:
  "(\<And>i j. i < p \<Longrightarrow> j < q \<Longrightarrow> f i j = g i j) \<Longrightarrow> tabulate2 p q f = tabulate2 p q g"
  by (simp add: tabulate2_def)

lemma well_shaped_tabulate2: "well_shaped (tabulate2 p q f)"
  by (simp add: well_shaped_def tabulate2_def list_all_iff)

lemma shape_ops [simp]:
  "shape0 (ones p q) = p" "shape1 (ones p q) = q"
  "shape0 (transpose_t T) = shape1 T" "shape1 (transpose_t T) = shape0 T"
  "shape0 (mm A B) = shape0 A" "shape1 (mm A B) = shape1 B"
  "shape0 (mul A B) = shape0 A" "shape1 (mul A B) = shape1 A"
  "shape0 (tensor_map g T) = shape0 T" "shape1 (tensor_map g T) = shape1 T"
  "shape0 (kernel_K c e) = shape0 c" "shape1 (kernel_K c e) = shape1 c"
  "shape0 (recip_floor T) = shape0 T" "shape1 (recip_floor T) = shape1 T"
  "shape0 (col xs) = length xs" "shape1 (col xs) = 1"
  by (simp_all add: ones_def transpose_t_def mm_def mul_def tensor_map_def kernel_K_def
      recip_floor_def col_def)

lemma shape_round [simp]:
  "shape0 (fst (sinkhorn_round K s)) = shape0 K" "shape1 (fst (sinkhorn_round K s)) = shape1 (snd s)"
  "shape0 (snd (sinkhorn_round K s)) = shape1 K" "shape1 (snd (sinkhorn_round K s)) = shape1 (snd s)"
  by (simp_all add: sinkhorn_round_def Let_def)

lemma sinkhorn_loop_step:
  "shape0 b = shape1 K \<Longrightarrow>
   sinkhorn_loop (l # ls) K (a, b) = sinkhorn_loop ls K (sinkhorn_round K (a, b))"
  by (simp add: matmul_def sinkhorn_round_def Let_def)

lemma sinkhorn_loop_funpow:
  "shape0 (snd s) = shape1 K \<Longrightarrow>
   sinkhorn_loop ls K s = Inr ((sinkhorn_round K ^^ length ls) s)"
proof (induction ls arbitrary: s)
  case Nil
  then show ?case by (cases s) simp
next
  case (Cons l ls)
  obtain a b where s: "s = (a, b)" by (cases s)
  from Cons.prems s have "shape0 b = shape1 K" by simp
  then have "sinkhorn_loop (l # ls) K s = sinkhorn_loop ls K (sinkhorn_round K s)"
    unfolding s by (rule sinkhorn_loop_step)
  also have "\<dots> = Inr ((sinkhorn_round K ^^ length ls) (sinkhorn_round K s))"
    by (rule Cons.IH) simp
  finally show ?case by (simp add: funpow_swap1)
qed

lemma round_ignores_a: "sinkhorn_round K (a, b) = sinkhorn_round K (a', b)"
  by (simp add: sinkhorn_round_def)

lemma length_py_range [simp]: "length (py_range L) = nat L"
  by (simp add: py_range_def)

lemma entry_ops [simp]:
  "i < p \<Longrightarrow> j < q \<Longrightarrow> entry (ones p q) i j = 1"
  "i < shape1 T \<Longrightarrow> j < shape0 T \<Longrightarrow> entry (transpose_t T) i j = entry T j i"
  "i < shape0 A \<Longrightarrow> j < shape1 B \<Longrightarrow>
     entry (mm A B) i j = (\<Sum>k<shape1 A. entry A i k * entry B k j)"
  "i < shape0 A \<Longrightarrow> j < shape1 A \<Longrightarrow> entry (mul A B) i j = entry A i j * entry B i j"
  "i < shape0 T \<Longrightarrow> j < shape1 T \<Longrightarrow> entry (tensor_map g T) i j = g (entry T i j)"
  "i < shape0 c \<Longrightarrow> j < shape1 c \<Longrightarrow> entry (kernel_K c e) i j = exp (- entry c i j / e)"
  "i < shape0 T \<Longrightarrow> j < shape1 T \<Longrightarrow>
     entry (recip_floor T) i j = 1 / (entry T i j + 1 / 10 ^ 12)"
  "i < length xs \<Longrightarrow> j < 1 \<Longrightarrow> entry (col xs) i j = xs ! i"
  by (simp_all add: ones_def transpose_t_def mm_def mul_def tensor_map_def kernel_K_def
      recip_floor_def col_def)

lemma positive_ones: "positive (ones p q)"
  by (simp add: positive_def)

lemma positive_kernel: "positive (kernel_K c e)"
  by (simp add: positive_def)

lemma positive_transpose: "positive K \<Longrightarrow> positive (transpose_t K)"
  by (simp add: positive_def)

lemma positive_recip_mm:
  assumes "positive K" "positive b" "shape0 b = shape1 K"
  shows "positive (recip_floor (mm K b))"
proof -
  have "0 < 1 / ((\<Sum>k<shape1 K. entry K i k * entry b k j) + 1 / 10 ^ 12)"
    if "i < shape0 K" "j < shape1 b" for i j
  proof -
    have "0 \<le> (\<Sum>k<shape1 K. entry K i k * entry b k j)"
    proof (rule sum_nonneg)
      fix k assume "k \<in> {..<shape1 K}"
      with assms that have "0 < entry K i k" "0 < entry b k j"
        by (simp_all add: positive_def)
      then show "0 \<le> entry K i k * entry b k j" by simp
    qed
    then show ?thesis by simp
  qed
  then show ?thesis by (simp add: positive_def)
qed

lemma positive_round:
  assumes "positive K" "positive (snd s)" "shape0 (snd s) = shape1 K"
  shows "positive (fst (sinkhorn_round K s))" "positive (snd (sinkhorn_round K s))"
proof -
  have a: "positive (recip_floor (mm K (snd s)))"
    using assms by (rule positive_recip_mm)
  then show "positive (fst (sinkhorn_round K s))"
    by (simp add: sinkhorn_round_def Let_def)
  have "positive (recip_floor (mm (transpose_t K) (recip_floor (mm K (snd s)))))"
    by (rule positive_recip_mm) (simp_all add: positive_transpose assms a)
  then show "positive (snd (sinkhorn_round K s))"
    by (simp add: sinkhorn_round_def Let_def)
qed

lemma funpow_round_snd:
  assumes "positive K" "positive (snd s)" "shape0 (snd s) = shape1 K"
  shows "positive (snd ((sinkhorn_round K ^^ k) s)) \<and>
         shape0 (snd ((sinkhorn_round K ^^ k) s)) = shape1 K \<and>
         shape1 (snd ((sinkhorn_round K ^^ k) s)) = shape1 (snd s)"
proof (induction k)
  case 0
  from assms show ?case by simp
next
  case (Suc k)
  then show ?case using assms(1) by (simp add: positive_round)
qed

lemma funpow_round_fst:
  assumes "positive K" "positive (snd s)" "shape0 (snd s) = shape1 K" "0 < k"
  shows "positive (fst ((sinkhorn_round K ^^ k) s)) \<and>
         shape0 (fst ((sinkhorn_round K ^^ k) s)) = shape0 K \<and>
         shape1 (fst ((sinkhorn_round K ^^ k) s)) = shape1 (snd s)"
proof -
  from \<open>0 < k\<close> obtain k' where k: "k = Suc k'" by (cases k) auto
  have "positive (snd ((sinkhorn_round K ^^ k') s)) \<and>
        shape0 (snd ((sinkhorn_round K ^^ k') s)) = shape1 K \<and>
        shape1 (snd ((sinkhorn_round K ^^ k') s)) = shape1 (snd s)"
    using assms(1-3) by (rule funpow_round_snd)
  then show ?thesis using assms(1) by (simp add: k positive_round)
qed

lemma contraction_eq:
  assumes "shape0 b = shape1 K" "shape0 a = shape0 K"
  shows "contraction K c (a, b) =
    Inr (tabulate2 (shape1 b) (shape1 a)
      (\<lambda>i j. \<Sum>k<shape0 K. \<Sum>k'<shape1 K. entry K k k' * entry c k k' * entry b k' i * entry a k j))"
proof -
  have "mm (transpose_t (mm (mul K c) b)) a =
      tabulate2 (shape1 b) (shape1 a)
      (\<lambda>i j. \<Sum>k<shape0 K. \<Sum>k'<shape1 K. entry K k k' * entry c k k' * entry b k' i * entry a k j)"
    unfolding mm_def [of "transpose_t (mm (mul K c) b)" a]
    by (simp, rule tabulate2_cong) (simp add: sum_distrib_right)
  then show ?thesis using assms by (simp add: contraction_def matmul_def)
qed

lemma contraction_err:
  "shape0 b \<noteq> shape1 K \<or> shape0 a \<noteq> shape0 K \<Longrightarrow> contraction K c (a, b) = Inl InvalidArgument"
  by (auto simp add: contraction_def matmul_def)

lemma sq_dists_same_dim:
  assumes "shape1 X = shape1 Y"
  shows "sq_dists X Y = Inr (tabulate2 (shape0 X) (shape0 Y) (spec_C X Y))"
proof -
  have "bidx (shape1 Y) k = k" if "k < shape1 Y" for k
    using that by (auto simp add: bidx_def)
  then have "(\<Sum>k<shape1 Y. (entry X i (bidx (shape1 Y) k) - entry Y j (bidx (shape1 Y) k))\<^sup>2)
      = (\<Sum>k<shape1 Y. (entry X i k - entry Y j k)\<^sup>2)" for i j
    by (intro sum.cong) simp_all
  then show ?thesis using assms
    by (simp add: sq_dists_def broadcast_dim_def) (rule tabulate2_cong, simp add: spec_C_def)
qed

lemma sq_dists_Inr:
  assumes "sq_dists X Y = Inr c"
  shows "shape0 c = shape0 X" "shape1 c = shape0 Y" "nonneg c"
proof -
  from assms obtain d where
    c: "c = tabulate2 (shape0 X) (shape0 Y)
          (\<lambda>i j. \<Sum>k<d. (entry X i (bidx (shape1 X) k) - entry Y j (bidx (shape1 Y) k))\<^sup>2)"
    by (auto simp add: sq_dists_def split: sum.splits)
  show "shape0 c = shape0 X" "shape1 c = shape0 Y" by (simp_all add: c)
  show "nonneg c" by (simp add: c nonneg_def sum_nonneg)
qed

lemma sinkhorn_loss_run:
  assumes "sq_dists X Y = Inr c"
  shows "sinkhorn_loss X Y e L =
    contraction (kernel_K c e) c ((sinkhorn_round (kernel_K c e) ^^ nat L) (init_scalings Y))"
proof -
  have "shape0 (snd (init_scalings Y)) = shape1 (kernel_K c e)"
    using sq_dists_Inr(2) [OF assms] by (simp add: init_scalings_def)
  then have "sinkhorn_loop (py_range L) (kernel_K c e) (init_scalings Y) =
      Inr ((sinkhorn_round (kernel_K c e) ^^ nat L) (init_scalings Y))"
    by (simp add: sinkhorn_loop_funpow)
  then show ?thesis using assms by (simp add: sinkhorn_loss_def sinkhorn_from_def)
qed

lemma init_scalings_facts:
  "positive (fst (init_scalings Y))" "positive (snd (init_scalings Y))"
  "shape0 (fst (init_scalings Y)) = shape0 Y" "shape0 (snd (init_scalings Y)) = shape0 Y"
  "shape1 (fst (init_scalings Y)) = 1" "shape1 (snd (init_scalings Y)) = 1"
  by (simp_all add: init_scalings_def positive_ones)

text \<open>The state after the loop: shapes and signs.\<close>

lemma final_state:
  fixes e :: real and L :: int
  assumes "sq_dists X Y = Inr c"
  defines "s \<equiv> (sinkhorn_round (kernel_K c e) ^^ nat L) (init_scalings Y)"
  shows "positive (fst s)" "positive (snd s)"
    "shape0 (snd s) = shape0 Y" "shape1 (snd s) = 1" "shape1 (fst s) = 1"
    "shape0 (fst s) = (if 1 \<le> L then shape0 X else shape0 Y)"
proof -
  note c = sq_dists_Inr [OF assms(1)]
  have b: "positive (snd s) \<and> shape0 (snd s) = shape1 (kernel_K c e) \<and>
      shape1 (snd s) = shape1 (snd (init_scalings Y))"
    unfolding s_def by (rule funpow_round_snd) (simp_all add: positive_kernel init_scalings_facts c)
  then show "positive (snd s)" "shape0 (snd s) = shape0 Y" "shape1 (snd s) = 1"
    by (simp_all add: c init_scalings_facts)
  have a: "positive (fst s) \<and> shape0 (fst s) = (if 1 \<le> L then shape0 X else shape0 Y) \<and>
      shape1 (fst s) = 1"
  proof (cases "1 \<le> L")
    case True
    then have "0 < nat L" by simp
    then have "positive (fst s) \<and> shape0 (fst s) = shape0 (kernel_K c e) \<and>
        shape1 (fst s) = shape1 (snd (init_scalings Y))"
      unfolding s_def
      by (intro funpow_round_fst) (simp_all add: positive_kernel init_scalings_facts c)
    with True show ?thesis by (simp add: c init_scalings_facts)
  next
    case False
    then have "nat L = 0" by simp
    then have "s = init_scalings Y" by (simp add: s_def)
    with False show ?thesis by (simp add: init_scalings_facts)
  qed
  then show "positive (fst s)" "shape1 (fst s) = 1"
    "shape0 (fst s) = (if 1 \<le> L then shape0 X else shape0 Y)" by simp_all
qed

lemma sinkhorn_loss_cases:
  fixes e :: real and L :: int
  assumes "sq_dists X Y = Inr c"
  defines "K \<equiv> kernel_K c e"
  defines "s \<equiv> (sinkhorn_round (kernel_K c e) ^^ nat L) (init_scalings Y)"
  shows "sinkhorn_loss X Y e L =
    (if 1 \<le> L \<or> shape0 X = shape0 Y
     then Inr (tabulate2 1 1 (\<lambda>i j. \<Sum>k<shape0 X. \<Sum>k'<shape0 Y.
              entry K k k' * entry c k k' * entry (snd s) k' 0 * entry (fst s) k 0))
     else Inl InvalidArgument)"
proof -
  note c = sq_dists_Inr [OF assms(1)]
  note st = final_state [OF assms(1), where e = e and L = L, folded s_def]
  have run: "sinkhorn_loss X Y e L = contraction K c (fst s, snd s)"
    by (simp add: sinkhorn_loss_run [OF assms(1)] K_def s_def)
  show ?thesis
  proof (cases "1 \<le> L \<or> shape0 X = shape0 Y")
    case True
    then have "shape0 (fst s) = shape0 K" "shape0 (snd s) = shape1 K"
      by (auto simp add: st K_def c)
    then have "contraction K c (fst s, snd s) =
        Inr (tabulate2 (shape1 (snd s)) (shape1 (fst s))
          (\<lambda>i j. \<Sum>k<shape0 K. \<Sum>k'<shape1 K.
             entry K k k' * entry c k k' * entry (snd s) k' i * entry (fst s) k j))"
      by (intro contraction_eq) simp_all
    also have "\<dots> = Inr (tabulate2 1 1 (\<lambda>i j. \<Sum>k<shape0 X. \<Sum>k'<shape0 Y.
              entry K k k' * entry c k k' * entry (snd s) k' 0 * entry (fst s) k 0))"
      by (simp add: st K_def c) (rule tabulate2_cong, simp)
    finally show ?thesis using True run by simp
  next
    case False
    then have "shape0 (fst s) \<noteq> shape0 K" by (simp add: st K_def c)
    then have "contraction K c (fst s, snd s) = Inl InvalidArgument"
      by (intro contraction_err) simp
    with False run show ?thesis by simp
  qed
qed

lemma sample_shapes [simp]:
  "shape0 two_points = 2" "shape1 two_points = 1" "well_shaped two_points"
  "shape0 one_point = 1" "shape1 one_point = 1" "well_shaped one_point"
  "shape0 plane_points = 2" "shape1 plane_points = 2" "well_shaped plane_points"
  by (simp_all add: two_points_def one_point_def plane_points_def well_shaped_def)

section \<open>The loop computes the specification's scaling vectors\<close>

lemma spec_round_lengths [simp]:
  "length (fst (spec_round K m n uv)) = m" "length (snd (spec_round K m n uv)) = n"
  by (simp_all add: spec_round_def Let_def)

lemma spec_round_ignores_u: "spec_round K m n (u, v) = spec_round K m n (u', v)"
  by (simp add: spec_round_def)

lemma spec_round_cong:
  assumes "\<And>i j. i < m \<Longrightarrow> j < n \<Longrightarrow> K i j = K' i j"
  shows "spec_round K m n = spec_round K' m n"
proof
  fix uv :: "real list \<times> real list"
  define f where "f K = map (\<lambda>i. 1 / ((\<Sum>j<n. K i j * snd uv ! j) + 1 / 10 ^ 12)) [0..<m]"
    for K :: "nat \<Rightarrow> nat \<Rightarrow> real"
  define g where "g K w = map (\<lambda>j. 1 / ((\<Sum>i<m. K i j * w ! i) + 1 / 10 ^ 12)) [0..<n]"
    for K :: "nat \<Rightarrow> nat \<Rightarrow> real" and w :: "real list"
  have "(\<Sum>j<n. K i j * snd uv ! j) = (\<Sum>j<n. K' i j * snd uv ! j)" if "i < m" for i
    using that by (intro sum.cong) (simp_all add: assms)
  then have u: "f K = f K'"
    unfolding f_def by (intro map_cong) simp_all
  have "(\<Sum>i<m. K i j * w ! i) = (\<Sum>i<m. K' i j * w ! i)" if "j < n" for j and w :: "real list"
    using that by (intro sum.cong) (simp_all add: assms)
  then have v: "g K w = g K' w" for w
    unfolding g_def by (intro map_cong) simp_all
  have "spec_round K m n uv = (f K, g K (f K))" for K
    by (simp add: spec_round_def Let_def f_def g_def)
  then show "spec_round K m n uv = spec_round K' m n uv"
    by (simp add: u v)
qed

lemma round_col:
  assumes "length v = shape1 K"
  shows "sinkhorn_round K (a, col v) =
    (col (fst (spec_round (entry K) (shape0 K) (shape1 K) (u, v))),
     col (snd (spec_round (entry K) (shape0 K) (shape1 K) (u, v))))"
proof -
  define u' where "u' = map (\<lambda>i. 1 / ((\<Sum>j<shape1 K. entry K i j * v ! j) + 1 / 10 ^ 12)) [0..<shape0 K]"
  define v' where "v' = map (\<lambda>j. 1 / ((\<Sum>i<shape0 K. entry K i j * u' ! i) + 1 / 10 ^ 12)) [0..<shape1 K]"
  have sp: "spec_round (entry K) (shape0 K) (shape1 K) (u, v) = (u', v')"
    by (simp add: spec_round_def Let_def u'_def v'_def)
  have a: "recip_floor (mm K (col v)) = col u'"
    unfolding recip_floor_def tensor_map_def col_def [of u']
    by (simp add: u'_def, rule tabulate2_cong) (simp add: assms)
  have b: "recip_floor (mm (transpose_t K) (col u')) = col v'"
    unfolding recip_floor_def tensor_map_def col_def [of v']
    by (simp add: v'_def, rule tabulate2_cong) (simp add: u'_def)
  show ?thesis by (simp add: sinkhorn_round_def Let_def a b sp)
qed

lemma funpow_col:
  assumes "length v = shape1 K"
  shows "(sinkhorn_round K ^^ k) (col u, col v) =
    (col (fst ((spec_round (entry K) (shape0 K) (shape1 K) ^^ k) (u, v))),
     col (snd ((spec_round (entry K) (shape0 K) (shape1 K) ^^ k) (u, v))))
    \<and> length (snd ((spec_round (entry K) (shape0 K) (shape1 K) ^^ k) (u, v))) = shape1 K"
proof (induction k)
  case 0
  from assms show ?case by simp
next
  case (Suc k)
  define uv where "uv = (spec_round (entry K) (shape0 K) (shape1 K) ^^ k) (u, v)"
  from Suc have st: "(sinkhorn_round K ^^ k) (col u, col v) = (col (fst uv), col (snd uv))"
    and len: "length (snd uv) = shape1 K"
    by (simp_all add: uv_def)
  have "sinkhorn_round K (col (fst uv), col (snd uv)) =
    (col (fst (spec_round (entry K) (shape0 K) (shape1 K) (fst uv, snd uv))),
     col (snd (spec_round (entry K) (shape0 K) (shape1 K) (fst uv, snd uv))))"
    using len by (rule round_col)
  then show ?case by (simp add: st uv_def [symmetric])
qed

lemma ones_col: "ones n (Suc 0) = col (replicate n 1)"
  unfolding ones_def col_def by (simp, rule tabulate2_cong) simp

lemma funpow_from_init:
  assumes "shape1 K = shape0 Y" "0 < k"
  shows "(sinkhorn_round K ^^ k) (init_scalings Y) =
    (col (fst (spec_scalings (entry K) (shape0 K) (shape1 K) k)),
     col (snd (spec_scalings (entry K) (shape0 K) (shape1 K) k)))"
proof -
  from \<open>0 < k\<close> obtain k' where k: "k = Suc k'" by (cases k) auto
  let ?v = "replicate (shape1 K) (1::real)"
  let ?u = "replicate (shape0 K) (1::real)"
  have "(sinkhorn_round K ^^ k) (init_scalings Y) =
      (sinkhorn_round K ^^ k') (sinkhorn_round K (col ?v, col ?v))"
    by (simp add: k funpow_swap1 init_scalings_def ones_col assms(1))
  also have "sinkhorn_round K (col ?v, col ?v) = sinkhorn_round K (col ?u, col ?v)"
    by (rule round_ignores_a)
  also have "(sinkhorn_round K ^^ k') (sinkhorn_round K (col ?u, col ?v)) =
      (sinkhorn_round K ^^ k) (col ?u, col ?v)"
    by (simp add: k funpow_swap1)
  finally show ?thesis
    using funpow_col [of ?v K k ?u] by (simp add: spec_scalings_def)
qed

lemma spec_scalings_lengths:
  "0 < k \<Longrightarrow> length (fst (spec_scalings K m n k)) = m"
  "0 < k \<Longrightarrow> length (snd (spec_scalings K m n k)) = n"
  by (cases k; simp add: spec_scalings_def)+

lemma sinkhorn_loss_spec_cost:
  fixes e :: real and L :: int
  assumes "shape1 X = shape1 Y" "1 \<le> L"
  shows "sinkhorn_loss X Y e L = Inr (tabulate2 1 1 (\<lambda>i j. spec_transport_cost X Y e (nat L)))"
proof -
  define m n where "m = shape0 X" and "n = shape0 Y"
  define c where "c = tabulate2 m n (spec_C X Y)"
  define K where "K = kernel_K c e"
  define s where "s = (sinkhorn_round (kernel_K c e) ^^ nat L) (init_scalings Y)"
  define uv where "uv = spec_scalings (spec_K X Y e) m n (nat L)"
  have c: "sq_dists X Y = Inr c"
    using assms(1) by (simp add: sq_dists_same_dim c_def m_def n_def)
  have pos: "0 < nat L" using assms(2) by simp
  have K: "entry K i j = spec_K X Y e i j" if "i < m" "j < n" for i j
    using that by (simp add: K_def c_def spec_K_def)
  have "spec_round (entry K) m n = spec_round (spec_K X Y e) m n"
    by (rule spec_round_cong) (rule K)
  then have "spec_scalings (entry K) m n (nat L) = uv"
    by (simp add: spec_scalings_def uv_def)
  moreover have "s = (col (fst (spec_scalings (entry K) (shape0 K) (shape1 K) (nat L))),
      col (snd (spec_scalings (entry K) (shape0 K) (shape1 K) (nat L))))"
    unfolding s_def K_def [symmetric]
    using pos by (intro funpow_from_init) (simp_all add: K_def c_def n_def)
  ultimately have s: "s = (col (fst uv), col (snd uv))"
    by (simp add: K_def c_def)
  have len: "length (fst uv) = m" "length (snd uv) = n"
    using pos by (simp_all add: uv_def spec_scalings_lengths)
  have "sinkhorn_loss X Y e L =
      Inr (tabulate2 1 1 (\<lambda>i j. \<Sum>k<shape0 X. \<Sum>k'<shape0 Y.
              entry K k k' * entry c k k' * entry (snd s) k' 0 * entry (fst s) k 0))"
    using sinkhorn_loss_cases [OF c, where e = e and L = L] assms(2)
    by (simp add: K_def s_def)
  also have "(\<Sum>k<shape0 X. \<Sum>k'<shape0 Y.
         entry K k k' * entry c k k' * entry (snd s) k' 0 * entry (fst s) k 0) =
      (\<Sum>k<m. \<Sum>k'<n. spec_K X Y e k k' * spec_C X Y k k' * snd uv ! k' * fst uv ! k)"
    unfolding m_def [symmetric] n_def [symmetric]
    by (intro sum.cong refl) (simp add: K s len c_def)
  also have "\<dots> = spec_transport_cost X Y e (nat L)"
    by (simp add: spec_transport_cost_def Let_def uv_def m_def n_def)
  finally show ?thesis .
qed

lemma funpow_ignores_a:
  "0 < k \<Longrightarrow> (sinkhorn_round K ^^ k) (a, b) = (sinkhorn_round K ^^ k) (a', b)"
proof -
  assume "0 < k"
  then obtain k' where k: "k = Suc k'" by (cases k) auto
  have "sinkhorn_round K (a, b) = sinkhorn_round K (a', b)" by (rule round_ignores_a)
  then show ?thesis by (simp add: k funpow_swap1)
qed

section \<open>A run without rounds\<close>

text \<open>
  With \<open>L \<le> 0\<close> the range is empty and the return line meets the initial \<open>a\<close> and
  \<open>b\<close>. When both point sets have the same number of points the result is the sum of
  the entries of \<open>K * c\<close>.
\<close>

lemma sinkhorn_loss_no_rounds_equal_sizes:
  fixes e :: real and L :: int
  assumes "shape1 X = shape1 Y" "shape0 X = shape0 Y" "L \<le> 0"
  shows "sinkhorn_loss X Y e L =
    Inr (tabulate2 1 1 (\<lambda>i j. \<Sum>i<shape0 X. \<Sum>j<shape0 Y. spec_K X Y e i j * spec_C X Y i j))"
proof -
  define c where "c = tabulate2 (shape0 X) (shape0 Y) (spec_C X Y)"
  have c: "sq_dists X Y = Inr c"
    using assms(1) by (simp add: sq_dists_same_dim c_def)
  have L: "nat L = 0" using assms(3) by simp
  have "(\<Sum>k<shape0 X. \<Sum>k'<shape0 Y. entry (kernel_K c e) k k' * entry c k k' *
          entry (snd (init_scalings Y)) k' 0 * entry (fst (init_scalings Y)) k 0) =
      (\<Sum>i<shape0 X. \<Sum>j<shape0 Y. spec_K X Y e i j * spec_C X Y i j)"
    by (intro sum.cong refl) (simp add: c_def init_scalings_def spec_K_def assms(2))
  with sinkhorn_loss_cases [OF c, where e = e and L = L] assms(2)
  show ?thesis by (simp add: L)
qed

text \<open>Two points of the plane at distance 5 against themselves, \<open>epsilon = 1\<close>.\<close>

lemma sinkhorn_loss_plane_example: "sinkhorn_loss plane_points plane_points 1 0 =
    Inr \<lparr>shape0 = 1, shape1 = 1, rows = [[50 * exp (- 25)]]\<rparr>"
  apply (subst sinkhorn_loss_cases [OF sq_dists_same_dim])
   apply simp
  apply (simp add: tabulate2_def init_scalings_def spec_C_def kernel_K_def lessThan_Suc
      eval_nat_numeral plane_points_def entry_def)
  apply (simp add: tensor_map_def tabulate2_def ones_def entry_def)
  done

section \<open>The result of \<open>sinkhorn_loss\<close>\<close>

text \<open>
  C1. For point sets \<open>X\<close> (\<open>m\<close> points) and \<open>Y\<close> (\<open>n\<close> points) of equal dimension with
  \<open>m \<ge> 1\<close> and \<open>n \<ge> 1\<close>, every \<open>epsilon > 0\<close> and every \<open>L \<ge> 1\<close>, \<open>sinkhorn_loss\<close>
  returns the \<open>1 \<times> 1\<close> tensor holding \<open>sum_{i,j} K[i][j] * C[i][j] * v[j] * u[i]\<close>, where
  \<open>C\<close> is the matrix of squared distances, \<open>K = exp(-C / epsilon)\<close> and \<open>u\<close>, \<open>v\<close> come from
  all-ones vectors by exactly \<open>L\<close> rounds, \<open>u\<close> updated first in each round from the
  current \<open>v\<close>.
\<close>

theorem sinkhorn_loss_computes_spec_cost:
  assumes "well_shaped X" "well_shaped Y" "shape1 X = shape1 Y"
    and "1 \<le> shape0 X" "1 \<le> shape0 Y" "0 < epsilon" "1 \<le> L"
  shows "sinkhorn_loss X Y epsilon L =
    Inr (tabulate2 1 1 (\<lambda>i j. spec_transport_cost X Y epsilon (nat L)))"
  using assms(3,7) by (rule sinkhorn_loss_spec_cost)

theorem sinkhorn_loss_computes_spec_cost_witness:
  "sinkhorn_loss two_points one_point (1 / 2) 3 =
    Inr (tabulate2 1 1 (\<lambda>i j. spec_transport_cost two_points one_point (1 / 2) 3))"
  using sinkhorn_loss_computes_spec_cost [of two_points one_point "1 / 2" 3] by simp

section \<open>The initial scaling vectors\<close>

text \<open>
  C2. The code sizes both initial vectors by the second point set: for a first set of
  two points and a second set of one point, \<open>a\<close> starts as the all-ones tensor of
  shape \<open>1 \<times> 1\<close>, not of the first set's size 2.
\<close>

theorem init_scalings_sized_by_second_set:
  "init_scalings one_point = (ones 1 1, ones 1 1) \<and>
   shape0 (fst (init_scalings one_point)) \<noteq> shape0 two_points"
  by (simp add: init_scalings_def)

text \<open>
  C3. With \<open>L = 0\<close> and point sets of two and of one point, the return line multiplies
  a \<open>1 \<times> 2\<close> tensor with the \<open>1 \<times> 1\<close> initial \<open>a\<close>, and \<open>sinkhorn_loss\<close> raises instead
  of returning the sum of the entries of \<open>K * c\<close>.
\<close>

theorem sinkhorn_loss_no_rounds_unequal_sizes:
  "sinkhorn_loss two_points one_point (1 / 2) 0 = Inl InvalidArgument"
proof -
  have "sq_dists two_points one_point =
      Inr (tabulate2 (shape0 two_points) (shape0 one_point) (spec_C two_points one_point))"
    by (rule sq_dists_same_dim) simp
  from sinkhorn_loss_cases [OF this, where e = "1 / 2" and L = 0]
  show ?thesis by simp
qed

section \<open>The number of rounds\<close>

text \<open>
  C7. Whenever the loop is reached, it ends in the state that \<open>L\<close> applications of the
  loop body produce from the initial vectors, for every input: the range has exactly
  \<open>L\<close> elements (none for \<open>L \<le> 0\<close>), one round is run for each, no round raises, and
  nothing but the range decides when the loop stops.
\<close>

theorem loop_runs_exactly_L_rounds:
  assumes "well_shaped X" "well_shaped Y" "0 < epsilon"
    and c: "sq_dists X Y = Inr c"
  shows "sinkhorn_loop (py_range L) (kernel_K c epsilon) (init_scalings Y) =
      Inr ((sinkhorn_round (kernel_K c epsilon) ^^ nat L) (init_scalings Y)) \<and>
    length (py_range L) = nat L"
proof -
  have "shape0 (snd (init_scalings Y)) = shape1 (kernel_K c epsilon)"
    using sq_dists_Inr(2) [OF c] by (simp add: init_scalings_facts)
  then show ?thesis by (simp add: sinkhorn_loop_funpow)
qed

theorem loop_runs_exactly_L_rounds_witness:
  "sinkhorn_loop (py_range 3) (kernel_K (tabulate2 2 1 (spec_C two_points one_point)) (1 / 2))
      (init_scalings one_point) =
    Inr ((sinkhorn_round (kernel_K (tabulate2 2 1 (spec_C two_points one_point)) (1 / 2)) ^^ 3)
      (init_scalings one_point)) \<and>
   length (py_range 3) = 3"
proof -
  have "sq_dists two_points one_point = Inr (tabulate2 2 1 (spec_C two_points one_point))"
    using sq_dists_same_dim [of two_points one_point] by simp
  from loop_runs_exactly_L_rounds [OF _ _ _ this, of "1 / 2" 3] show ?thesis by simp
qed

section \<open>The initial value of \<open>a\<close> is never read when a round is run\<close>

text \<open>
  C9. For \<open>L \<ge> 1\<close> the value returned does not depend on the starting value of \<open>a\<close>:
  the loop and the return line give the result of \<open>sinkhorn_loss\<close> from any starting
  \<open>a0\<close>, of any shape. The call returns a value, also when the two point sets differ
  in size, and after any positive number of rounds \<open>a\<close> has shape \<open>m \<times> 1\<close> and \<open>b\<close> has
  shape \<open>n \<times> 1\<close>.
\<close>

theorem result_independent_of_initial_a:
  fixes epsilon :: real and L :: int
  assumes "well_shaped X" "well_shaped Y" "0 < epsilon"
    and c: "sq_dists X Y = Inr c" and L: "1 \<le> L"
  defines "K \<equiv> kernel_K c epsilon"
  defines "b0 \<equiv> snd (init_scalings Y)"
  shows "sinkhorn_from K c L (a0, b0) = sinkhorn_loss X Y epsilon L \<and>
    (\<exists>T. sinkhorn_loss X Y epsilon L = Inr T) \<and>
    (\<forall>k. 0 < k \<longrightarrow>
       shape0 (fst ((sinkhorn_round K ^^ k) (a0, b0))) = shape0 X \<and>
       shape1 (fst ((sinkhorn_round K ^^ k) (a0, b0))) = 1 \<and>
       shape0 (snd ((sinkhorn_round K ^^ k) (a0, b0))) = shape0 Y \<and>
       shape1 (snd ((sinkhorn_round K ^^ k) (a0, b0))) = 1)"
proof (intro conjI allI impI)
  note cs = sq_dists_Inr [OF c]
  have b0: "shape0 b0 = shape1 K" "shape1 b0 = 1" "positive b0"
    by (simp_all add: b0_def K_def cs init_scalings_facts)
  have K: "positive K" by (simp add: K_def positive_kernel)
  have pos: "0 < nat L" using L by simp
  have "sinkhorn_loop (py_range L) K (a0, b0) = Inr ((sinkhorn_round K ^^ nat L) (a0, b0))"
    using b0(1) by (simp add: sinkhorn_loop_funpow)
  also have "(sinkhorn_round K ^^ nat L) (a0, b0) =
      (sinkhorn_round K ^^ nat L) (fst (init_scalings Y), b0)"
    using pos by (rule funpow_ignores_a)
  finally have "sinkhorn_from K c L (a0, b0) =
      contraction K c ((sinkhorn_round K ^^ nat L) (init_scalings Y))"
    by (simp add: sinkhorn_from_def b0_def)
  then show "sinkhorn_from K c L (a0, b0) = sinkhorn_loss X Y epsilon L"
    by (simp add: sinkhorn_loss_run [OF c] K_def)
  show "\<exists>T. sinkhorn_loss X Y epsilon L = Inr T"
    using sinkhorn_loss_cases [OF c, where e = epsilon and L = L] L by simp
  fix k :: nat assume k: "0 < k"
  have "positive (fst ((sinkhorn_round K ^^ k) (a0, b0))) \<and>
      shape0 (fst ((sinkhorn_round K ^^ k) (a0, b0))) = shape0 K \<and>
      shape1 (fst ((sinkhorn_round K ^^ k) (a0, b0))) = shape1 (snd (a0, b0))"
    using K k by (intro funpow_round_fst) (simp_all add: b0)
  then show "shape0 (fst ((sinkhorn_round K ^^ k) (a0, b0))) = shape0 X"
    "shape1 (fst ((sinkhorn_round K ^^ k) (a0, b0))) = 1"
    by (simp_all add: K_def cs b0)
  have "positive (snd ((sinkhorn_round K ^^ k) (a0, b0))) \<and>
      shape0 (snd ((sinkhorn_round K ^^ k) (a0, b0))) = shape1 K \<and>
      shape1 (snd ((sinkhorn_round K ^^ k) (a0, b0))) = shape1 (snd (a0, b0))"
    using K by (intro funpow_round_snd) (simp_all add: b0)
  then show "shape0 (snd ((sinkhorn_round K ^^ k) (a0, b0))) = shape0 Y"
    "shape1 (snd ((sinkhorn_round K ^^ k) (a0, b0))) = 1"
    by (simp_all add: K_def cs b0)
qed

theorem result_independent_of_initial_a_witness:
  "sinkhorn_from (kernel_K (tabulate2 2 1 (spec_C two_points one_point)) (1 / 2))
      (tabulate2 2 1 (spec_C two_points one_point)) 3
      (ones 5 7, snd (init_scalings one_point)) =
    sinkhorn_loss two_points one_point (1 / 2) 3 \<and>
   (\<exists>T. sinkhorn_loss two_points one_point (1 / 2) 3 = Inr T) \<and>
   shape0 (fst ((sinkhorn_round (kernel_K (tabulate2 2 1 (spec_C two_points one_point)) (1 / 2)) ^^ 1)
      (ones 5 7, snd (init_scalings one_point)))) = 2"
proof -
  have "sq_dists two_points one_point = Inr (tabulate2 2 1 (spec_C two_points one_point))"
    using sq_dists_same_dim [of two_points one_point] by simp
  from result_independent_of_initial_a [OF _ _ _ this, of "1 / 2" 3 "ones 5 7"]
  show ?thesis by simp
qed

section \<open>The default parameters at the call site\<close>

text \<open>
  C10. A call with the two point sets only runs \<open>sinkhorn_loss\<close> with \<open>epsilon = 0.5\<close>
  and \<open>L = 10\<close>; the composite \<open>loss\<close> is \<open>2 S(X, G) - S(X, X) - S(G, G)\<close> where \<open>S\<close> is
  the specification's cost at temperature \<open>0.5\<close> after exactly 10 rounds.
\<close>

theorem loss_uses_default_arguments:
  assumes "well_shaped X" "well_shaped G" and d: "shape1 X = shape1 G"
  shows "loss X G = Inr (2 * spec_transport_cost X G (1 / 2) 10
           - spec_transport_cost X X (1 / 2) 10 - spec_transport_cost G G (1 / 2) 10) \<and>
    sinkhorn_loss_default X G = sinkhorn_loss X G (1 / 2) 10"
proof -
  have S: "sinkhorn_loss_default A B =
      Inr (tabulate2 1 1 (\<lambda>i j. spec_transport_cost A B (1 / 2) 10))"
    if "shape1 A = shape1 B" for A B
    using sinkhorn_loss_spec_cost [OF that, of 10 "1 / 2"]
    by (simp add: sinkhorn_loss_default_def)
  have "reduce_sum (sub_t (sub_t (scale 2 (tabulate2 1 1 (\<lambda>i j. p))) (tabulate2 1 1 (\<lambda>i j. q)))
      (tabulate2 1 1 (\<lambda>i j. r))) = 2 * p - q - r" for p q r :: real
    by (simp add: reduce_sum_def sub_t_def scale_def tensor_map_def)
  then have "loss X G = Inr (2 * spec_transport_cost X G (1 / 2) 10
           - spec_transport_cost X X (1 / 2) 10 - spec_transport_cost G G (1 / 2) 10)"
    by (simp add: loss_def S d)
  moreover have "sinkhorn_loss_default X G = sinkhorn_loss X G (1 / 2) 10"
    by (simp add: sinkhorn_loss_default_def)
  ultimately show ?thesis by (rule conjI)
qed

theorem loss_uses_default_arguments_witness:
  "loss two_points one_point = Inr (2 * spec_transport_cost two_points one_point (1 / 2) 10
       - spec_transport_cost two_points two_points (1 / 2) 10
       - spec_transport_cost one_point one_point (1 / 2) 10) \<and>
   sinkhorn_loss_default two_points one_point = sinkhorn_loss two_points one_point (1 / 2) 10"
  using loss_uses_default_arguments [of two_points one_point] by simp

section \<open>Rounding\<close>

lemma round_even_of_int [simp]: "round_even (of_int k) = k"
  by (simp add: round_even_def)



lemma ulp_pos: "0 < ulp x"
  by (simp add: ulp_def)



lemma expo_ge: "- 126 \<le> expo x"
  by (simp add: expo_def)


lemma inverse_ulp: "expo x \<le> 23 \<Longrightarrow> 1 / ulp x = of_int (2 ^ nat (23 - expo x))"
proof -
  assume "expo x \<le> 23"
  then have "(2::real) powr (of_int (23 - expo x)) = 2 ^ nat (23 - expo x)"
    using powr_real_of_int [of 2 "23 - expo x"] by simp
  moreover have "1 / ulp x = 2 powr (of_int (23 - expo x))"
    by (simp add: ulp_def powr_minus_divide [symmetric])
  ultimately show ?thesis by simp
qed





lemma round_even_0 [simp]: "round_even 0 = 0"
  using round_even_of_int [of 0] by simp


lemma rnd_zero [simp]: "rnd 0 = Fin 0"
  by (simp add: rnd_def overflow_bound_def)


section \<open>Signs under the floating-point operations\<close>

















lemma rnd_not_nan [simp]: "rnd x \<noteq> NaN"
  by (simp add: rnd_def)








lemma rnd_exact:
  assumes "\<bar>x\<bar> < overflow_bound" "x / ulp x = of_int k"
  shows "rnd x = Fin x"
proof -
  have "ulp x * of_int (round_even (x / ulp x)) = ulp x * (x / ulp x)"
    by (simp add: assms(2))
  also have "\<dots> = x" using ulp_pos [of x] by simp
  finally show ?thesis using assms(1) by (simp add: rnd_def)
qed

lemma rnd_small_int:
  assumes "\<bar>n\<bar> < 2 ^ 24"
  shows "rnd (of_int n) = Fin (of_int n)"
proof -
  let ?x = "of_int n :: real"
  have ax: "\<bar>?x\<bar> < 2 ^ 24" using assms by (metis of_int_abs of_int_less_iff of_int_numeral of_int_power)
  have "log 2 \<bar>?x\<bar> < 24"
  proof (cases "n = 0")
    case True
    then show ?thesis by (simp add: log_def)
  next
    case False
    then show ?thesis using log_less_iff [of 2 "\<bar>?x\<bar>" 24] ax by simp
  qed
  then have "\<lfloor>log 2 \<bar>?x\<bar>\<rfloor> \<le> 23" by (simp add: floor_le_iff)
  then have e: "expo ?x \<le> 23" by (simp add: expo_def)
  have "?x / ulp ?x = ?x * (1 / ulp ?x)" by simp
  also have "\<dots> = of_int (n * 2 ^ nat (23 - expo ?x))"
    unfolding inverse_ulp [OF e] by simp
  finally have "?x / ulp ?x = of_int (n * 2 ^ nat (23 - expo ?x))" .
  moreover have "\<bar>?x\<bar> < overflow_bound" using ax by (simp add: overflow_bound_def)
  ultimately show ?thesis by (intro rnd_exact)
qed

lemma rnd_half: "rnd (1 / 2) = Fin (1 / 2)"
proof -
  have "\<lfloor>log 2 (1 / 2 :: real)\<rfloor> = - 1"
    by (simp add: log_divide floor_eq_iff)
  then have e: "expo (1 / 2) = - 1" by (simp add: expo_def)
  have u: "ulp (1 / 2) = 1 / 2 ^ 24" by (simp add: ulp_def e powr_neg_numeral)
  have "(1 / 2) / ulp (1 / 2) = of_int (2 ^ 23)"
    by (simp add: u)
  moreover have "\<bar>1 / 2 :: real\<bar> < overflow_bound" by (simp add: overflow_bound_def)
  ultimately show ?thesis by (intro rnd_exact)
qed


section \<open>Shapes and signs in the floating-point run\<close>

lemma shape_tabulate2_f [simp]:
  "fshape0 (tabulate2_f p q f) = p" "fshape1 (tabulate2_f p q f) = q"
  by (simp_all add: tabulate2_f_def)

lemma entry_tabulate2_f [simp]:
  "i < p \<Longrightarrow> j < q \<Longrightarrow> entry_f (tabulate2_f p q f) i j = f i j"
  by (simp add: tabulate2_f_def entry_f_def)

lemma shape_ops_f [simp]:
  "fshape0 (ones_f p q) = p" "fshape1 (ones_f p q) = q"
  "fshape0 (transpose_f T) = fshape1 T" "fshape1 (transpose_f T) = fshape0 T"
  "fshape0 (mm_f A B) = fshape0 A" "fshape1 (mm_f A B) = fshape1 B"
  "fshape0 (mul_f A B) = fshape0 A" "fshape1 (mul_f A B) = fshape1 A"
  "fshape0 (tensor_map_f g T) = fshape0 T" "fshape1 (tensor_map_f g T) = fshape1 T"
  "fshape0 (kernel_K_f c e) = fshape0 c" "fshape1 (kernel_K_f c e) = fshape1 c"
  "fshape0 (recip_floor_f T) = fshape0 T" "fshape1 (recip_floor_f T) = fshape1 T"
  by (simp_all add: ones_f_def transpose_f_def mm_f_def mul_f_def tensor_map_f_def
      kernel_K_f_def recip_floor_f_def)

lemma entry_ops_f [simp]:
  "i < p \<Longrightarrow> j < q \<Longrightarrow> entry_f (ones_f p q) i j = Fin 1"
  "i < fshape1 T \<Longrightarrow> j < fshape0 T \<Longrightarrow> entry_f (transpose_f T) i j = entry_f T j i"
  "i < fshape0 A \<Longrightarrow> j < fshape1 B \<Longrightarrow>
     entry_f (mm_f A B) i j =
       fsum (map (\<lambda>k. fmul (entry_f A i k) (entry_f B k j)) [0..<fshape1 A])"
  "i < fshape0 A \<Longrightarrow> j < fshape1 A \<Longrightarrow>
     entry_f (mul_f A B) i j = fmul (entry_f A i j) (entry_f B i j)"
  "i < fshape0 T \<Longrightarrow> j < fshape1 T \<Longrightarrow> entry_f (tensor_map_f g T) i j = g (entry_f T i j)"
  "i < fshape0 c \<Longrightarrow> j < fshape1 c \<Longrightarrow>
     entry_f (kernel_K_f c e) i j = fexp (fdiv (fneg (entry_f c i j)) (rnd e))"
  "i < fshape0 T \<Longrightarrow> j < fshape1 T \<Longrightarrow>
     entry_f (recip_floor_f T) i j = fdiv (Fin 1) (fadd (entry_f T i j) (rnd (1 / 10 ^ 12)))"
  by (simp_all add: ones_f_def transpose_f_def mm_f_def mul_f_def tensor_map_f_def
      kernel_K_f_def recip_floor_f_def)

lemma shape_round_f [simp]:
  "fshape0 (fst (sinkhorn_round_f K s)) = fshape0 K"
  "fshape1 (fst (sinkhorn_round_f K s)) = fshape1 (snd s)"
  "fshape0 (snd (sinkhorn_round_f K s)) = fshape1 K"
  "fshape1 (snd (sinkhorn_round_f K s)) = fshape1 (snd s)"
  by (simp_all add: sinkhorn_round_f_def Let_def)
























lemma rnd_numeral [simp]:
  "numeral k < (2 ^ 24 :: int) \<Longrightarrow> rnd (numeral k) = Fin (numeral k)"
  "numeral k < (2 ^ 24 :: int) \<Longrightarrow> rnd (- numeral k) = Fin (- numeral k)"
  using rnd_small_int [of "numeral k"] rnd_small_int [of "- numeral k"] by simp_all

lemma rnd_one [simp]: "rnd 1 = Fin 1"
  using rnd_small_int [of 1] by simp


lemma sample_shapes_f [simp]:
  "fshape0 two_points_f = 2" "fshape1 two_points_f = 1" "well_shaped_f two_points_f"
  "fshape0 one_point_f = 1" "fshape1 one_point_f = 1" "well_shaped_f one_point_f"
  "fshape0 origin_f = 1" "fshape1 origin_f = 2" "well_shaped_f origin_f"
  "fshape0 ten_f = 1" "fshape1 ten_f = 2" "well_shaped_f ten_f"
  "fshape0 far_point_f = 1" "fshape1 far_point_f = 1" "well_shaped_f far_point_f"
  by (simp_all add: two_points_f_def one_point_f_def origin_f_def ten_f_def far_point_f_def
      well_shaped_f_def)

lemma sample_finite [simp]:
  "all_entries is_fin two_points_f" "all_entries is_fin one_point_f"
  by (simp_all add: all_entries_def two_points_f_def one_point_f_def entry_f_def less_Suc_eq
      numeral_2_eq_2)

lemma is_pos_half [simp]: "is_pos (rnd (1 / 2))"
  by (simp add: rnd_half)





section \<open>The kernel in floating-point arithmetic\<close>




section \<open>Sign of the result\<close>




section \<open>Exceptions and finiteness\<close>




end
